theory Spec2Isabelle
  imports Complex_Main "HOL-Library.AList"
begin

section \<open>Characters and strings\<close>

text \<open>
  A Python \<open>str\<close> is modelled as a \<open>string\<close>, a list of characters, each character
  standing for the code point of the same number (0 to 255). On these code points
  \<open>str.lower\<close> maps A-Z and the Latin-1 capitals (192-222 except 215) 32 places up and
  leaves every other character alone, and \<open>str.isspace\<close> (which is also what
  \<open>str.strip\<close>, \<open>str.split\<close> and the regular expression class \<open>\s\<close> use) holds of
  9-13, 28-32, 133 and 160.
\<close>

definition lower_char :: "char \<Rightarrow> char" where
  "lower_char c =
     (let n = of_char c :: nat in
      if (65 \<le> n \<and> n \<le> 90) \<or> (192 \<le> n \<and> n \<le> 222 \<and> n \<noteq> 215)
      then char_of (n + 32) else c)"

definition lower :: "string \<Rightarrow> string" where
  "lower s = map lower_char s"

definition isspace :: "char \<Rightarrow> bool" where
  "isspace c =
     (let n = of_char c :: nat in
      (9 \<le> n \<and> n \<le> 13) \<or> (28 \<le> n \<and> n \<le> 32) \<or> n = 133 \<or> n = 160)"

definition strip :: "string \<Rightarrow> string" where
  "strip s = rev (dropWhile isspace (rev (dropWhile isspace s)))"

text \<open>\<open>str.split()\<close> with no argument: the maximal runs of non-whitespace characters.\<close>

fun split_ws :: "string \<Rightarrow> string list" where
  "split_ws [] = []"
| "split_ws (c # cs) =
     (if isspace c then split_ws cs
      else (case split_ws cs of
              [] \<Rightarrow> [[c]]
            | w # ws \<Rightarrow> (if cs \<noteq> [] \<and> isspace (hd cs) then [c] # w # ws else (c # w) # ws)))"

section \<open>The similarity scorer\<close>

text \<open>
  \<open>similarity\<close> calls \<open>difflib.SequenceMatcher(None, a.lower(), b.lower()).ratio()\<close>.
  The matcher is from the Python standard library; it is modelled here after its
  source, with \<open>isjunk = None\<close> (no junk characters) and \<open>autojunk = True\<close>: when
  \<open>b\<close> has 200 characters or more, a character that fills more than one percent of it
  (plus one) is popular and is dropped from the index \<open>b2j\<close>.
\<close>

definition popular :: "string \<Rightarrow> char \<Rightarrow> bool" where
  "popular b c = (200 \<le> length b \<and> length b div 100 + 1 < count_list b c)"

definition b2j :: "string \<Rightarrow> char \<Rightarrow> nat list" where
  "b2j b c = (if popular b c then [] else filter (\<lambda>j. b ! j = c) [0..<length b])"

text \<open>
  A match is \<open>(i, j, k)\<close>: \<open>a[i:i+k] == b[j:j+k]\<close>. The dictionary \<open>j2len\<close> of
  \<open>find_longest_match\<close> is read only through \<open>get(j-1, 0)\<close> and holds positive
  numbers, so it is a function that is 0 where the dictionary has no key; the key
  \<open>-1\<close> is never present.
\<close>

type_synonym match = "nat \<times> nat \<times> nat"

definition inner_step ::
  "nat \<Rightarrow> (nat \<Rightarrow> nat) \<Rightarrow> nat \<Rightarrow> (nat \<Rightarrow> nat) \<times> match \<Rightarrow> (nat \<Rightarrow> nat) \<times> match" where
  "inner_step i j2len j st =
     (case st of (newj2len, besti, bestj, bestsize) \<Rightarrow>
        (let k = (if j = 0 then 0 else j2len (j - 1)) + 1 in
         (newj2len(j := k),
          if bestsize < k then (i + 1 - k, j + 1 - k, k) else (besti, bestj, bestsize))))"

definition row_step ::
  "string \<Rightarrow> string \<Rightarrow> nat \<Rightarrow> nat \<Rightarrow> nat \<Rightarrow> (nat \<Rightarrow> nat) \<times> match \<Rightarrow> (nat \<Rightarrow> nat) \<times> match" where
  "row_step a b blo bhi i st =
     (case st of (j2len, best) \<Rightarrow>
        fold (inner_step i j2len)
             (filter (\<lambda>j. blo \<le> j \<and> j < bhi) (b2j b (a ! i)))
             (\<lambda>_. 0, best))"

text \<open>
  The four extension loops after the table scan: with no junk, \<open>isbjunk\<close> is always
  false, so the first two loops extend over any equal characters (the popular ones
  included) and the last two never run.
\<close>

function extend_back :: "string \<Rightarrow> string \<Rightarrow> nat \<Rightarrow> nat \<Rightarrow> match \<Rightarrow> match" where
  "extend_back a b alo blo (besti, bestj, bestsize) =
     (if alo < besti \<and> blo < bestj \<and> a ! (besti - 1) = b ! (bestj - 1)
      then extend_back a b alo blo (besti - 1, bestj - 1, bestsize + 1)
      else (besti, bestj, bestsize))"
  by pat_completeness auto

termination
  by (relation "measure (\<lambda>(a, b, alo, blo, besti, bestj, bestsize). besti)") auto

function extend_fwd :: "string \<Rightarrow> string \<Rightarrow> nat \<Rightarrow> nat \<Rightarrow> match \<Rightarrow> match" where
  "extend_fwd a b ahi bhi (besti, bestj, bestsize) =
     (if besti + bestsize < ahi \<and> bestj + bestsize < bhi
         \<and> a ! (besti + bestsize) = b ! (bestj + bestsize)
      then extend_fwd a b ahi bhi (besti, bestj, bestsize + 1)
      else (besti, bestj, bestsize))"
  by pat_completeness auto

termination
  by (relation "measure (\<lambda>(a, b, ahi, bhi, besti, bestj, bestsize). ahi - (besti + bestsize))") auto

definition find_longest_match :: "string \<Rightarrow> string \<Rightarrow> nat \<Rightarrow> nat \<Rightarrow> nat \<Rightarrow> nat \<Rightarrow> match" where
  "find_longest_match a b alo ahi blo bhi =
     extend_fwd a b ahi bhi
       (extend_back a b alo blo
          (snd (fold (row_step a b blo bhi) [alo..<ahi] (\<lambda>_. 0, (alo, blo, 0)))))"

text \<open>
  \<open>get_matching_blocks\<close> splits the window around the longest match and goes on with
  the part to its left and the part to its right. That this ends rests on where
  \<open>find_longest_match\<close> puts its result: inside the window it was given.
\<close>

definition scan_inv :: "nat \<Rightarrow> nat \<Rightarrow> nat \<Rightarrow> (nat \<Rightarrow> nat) \<times> match \<Rightarrow> bool" where
  "scan_inv alo r n st =
     (case st of (j2len, besti, bestj, bestsize) \<Rightarrow>
        (\<forall>j. j2len j \<le> n) \<and> alo \<le> besti
        \<and> ((bestsize = 0 \<and> besti = alo) \<or> (0 < bestsize \<and> besti < r)))"

lemma inner_fold_inv:
  assumes "\<forall>j. j2len j \<le> n" and "scan_inv alo (Suc (alo + n)) (Suc n) st"
  shows "scan_inv alo (Suc (alo + n)) (Suc n) (fold (inner_step (alo + n) j2len) js st)"
  using assms(2)
proof (induction js arbitrary: st)
  case Nil
  then show ?case by simp
next
  case (Cons j js)
  obtain nj bi bj bs where st: "st = (nj, bi, bj, bs)" by (cases st) auto
  have "(if j = 0 then 0 else j2len (j - 1)) + 1 \<le> Suc n"
    using assms(1) by auto
  then have "scan_inv alo (Suc (alo + n)) (Suc n) (inner_step (alo + n) j2len j st)"
    using Cons.prems unfolding st inner_step_def scan_inv_def
    by (auto simp: Let_def)
  then show ?case
    by (simp add: Cons.IH)
qed

lemma row_step_inv:
  assumes "scan_inv alo (alo + n) n st"
  shows "scan_inv alo (Suc (alo + n)) (Suc n) (row_step a b blo bhi (alo + n) st)"
proof -
  obtain j2len bi bj bs where st: "st = (j2len, bi, bj, bs)" by (cases st) auto
  have le: "\<forall>j. j2len j \<le> n"
    using assms unfolding st scan_inv_def by simp
  have start: "scan_inv alo (Suc (alo + n)) (Suc n) (\<lambda>_. 0, bi, bj, bs)"
    using assms unfolding st scan_inv_def by auto
  show ?thesis
    unfolding st row_step_def using inner_fold_inv [OF le start] by simp
qed

lemma rows_inv:
  "scan_inv alo (alo + n) n
     (fold (row_step a b blo bhi) [alo..<alo + n] (\<lambda>_. 0, (alo, blo, 0)))"
proof (induction n)
  case 0
  show ?case by (simp add: scan_inv_def)
next
  case (Suc n)
  have "[alo..<alo + Suc n] = [alo..<alo + n] @ [alo + n]" by simp
  then show ?case
    using row_step_inv [OF Suc.IH] by simp
qed

definition match_inv :: "nat \<Rightarrow> nat \<Rightarrow> match \<Rightarrow> bool" where
  "match_inv alo ahi m =
     (case m of (besti, bestj, bestsize) \<Rightarrow>
        alo \<le> besti \<and> ((bestsize = 0 \<and> besti = alo) \<or> (0 < bestsize \<and> besti < ahi)))"

lemma scan_match_inv:
  "match_inv alo ahi (snd (fold (row_step a b blo bhi) [alo..<ahi] (\<lambda>_. 0, (alo, blo, 0))))"
proof (cases "alo \<le> ahi")
  case True
  then obtain n where n: "ahi = alo + n" by (auto simp: le_iff_add)
  show ?thesis
    using rows_inv [of alo n a b blo bhi] unfolding n scan_inv_def match_inv_def
    by (auto split: prod.splits)
next
  case False
  then show ?thesis by (simp add: match_inv_def)
qed

declare extend_back.simps [simp del]

declare extend_fwd.simps [simp del]

lemma extend_back_inv:
  "match_inv alo ahi m \<Longrightarrow> match_inv alo ahi (extend_back a b alo blo m)"
proof (induction a b alo blo m rule: extend_back.induct)
  case (1 a b alo blo besti bestj bestsize)
  show ?case
  proof (cases "alo < besti \<and> blo < bestj \<and> a ! (besti - 1) = b ! (bestj - 1)")
    case True
    have step: "match_inv alo ahi (besti - 1, bestj - 1, bestsize + 1)"
      using True "1.prems" by (auto simp: match_inv_def)
    have "extend_back a b alo blo (besti, bestj, bestsize)
          = extend_back a b alo blo (besti - 1, bestj - 1, bestsize + 1)"
      using True by (subst extend_back.simps) simp
    then show ?thesis
      using "1.IH" [OF True step] by simp
  next
    case False
    then have "extend_back a b alo blo (besti, bestj, bestsize) = (besti, bestj, bestsize)"
      by (subst extend_back.simps) auto
    then show ?thesis using "1.prems" by simp
  qed
qed

lemma extend_fwd_inv:
  "match_inv alo ahi m \<Longrightarrow> match_inv alo ahi (extend_fwd a b ahi bhi m)"
proof (induction a b ahi bhi m rule: extend_fwd.induct)
  case (1 a b ahi bhi besti bestj bestsize)
  show ?case
  proof (cases "besti + bestsize < ahi \<and> bestj + bestsize < bhi
         \<and> a ! (besti + bestsize) = b ! (bestj + bestsize)")
    case True
    have step: "match_inv alo ahi (besti, bestj, bestsize + 1)"
      using True "1.prems" by (auto simp: match_inv_def)
    have "extend_fwd a b ahi bhi (besti, bestj, bestsize)
          = extend_fwd a b ahi bhi (besti, bestj, bestsize + 1)"
      using True by (subst extend_fwd.simps) simp
    then show ?thesis
      using "1.IH" [OF True step] by simp
  next
    case False
    then have "extend_fwd a b ahi bhi (besti, bestj, bestsize) = (besti, bestj, bestsize)"
      by (subst extend_fwd.simps) auto
    then show ?thesis using "1.prems" by simp
  qed
qed

lemma find_longest_match_inv:
  "match_inv alo ahi (find_longest_match a b alo ahi blo bhi)"
  unfolding find_longest_match_def
  by (intro extend_fwd_inv extend_back_inv scan_match_inv)

lemma find_longest_match_bounds:
  assumes "(i, j, k) = find_longest_match a b alo ahi blo bhi" and "0 < k"
  shows "alo \<le> i \<and> i < ahi"
  using find_longest_match_inv [of alo ahi a b blo bhi] assms
  by (auto simp: match_inv_def split: prod.splits)

text \<open>
  The source keeps the windows still to do in a list used as a stack; each window is
  treated on its own, so the recursion below visits the same windows. The blocks are then
  sorted, adjacent ones merged and a block of size 0 appended: none of this changes the
  sum of the sizes, which is all that \<open>ratio\<close> reads.
\<close>

function matching_blocks :: "string \<Rightarrow> string \<Rightarrow> nat \<Rightarrow> nat \<Rightarrow> nat \<Rightarrow> nat \<Rightarrow> match list" where
  "matching_blocks a b alo ahi blo bhi =
     (case find_longest_match a b alo ahi blo bhi of (i, j, k) \<Rightarrow>
        if k \<noteq> 0
        then (i, j, k)
             # (if alo < i \<and> blo < j then matching_blocks a b alo i blo j else [])
             @ (if i + k < ahi \<and> j + k < bhi then matching_blocks a b (i + k) ahi (j + k) bhi else [])
        else [])"
  by pat_completeness auto

termination
proof (relation "measure (\<lambda>(a, b, alo, ahi, blo, bhi). ahi - alo)")
  show "wf (measure (\<lambda>(a, b, alo, ahi, blo, bhi). ahi - alo))"
    by simp
next
  fix a b :: string and alo ahi blo bhi i :: nat and y :: "nat \<times> nat" and j k :: nat
  assume "(i, y) = find_longest_match a b alo ahi blo bhi" "(j, k) = y" "k \<noteq> 0"
    "alo < i \<and> blo < j"
  then have "alo \<le> i \<and> i < ahi"
    using find_longest_match_bounds [of i j k a b alo ahi blo bhi] by simp
  then show "((a, b, alo, i, blo, j), (a, b, alo, ahi, blo, bhi))
      \<in> measure (\<lambda>(a, b, alo, ahi, blo, bhi). ahi - alo)"
    by auto
next
  fix a b :: string and alo ahi blo bhi i :: nat and y :: "nat \<times> nat" and j k :: nat
  assume "(i, y) = find_longest_match a b alo ahi blo bhi" "(j, k) = y" "k \<noteq> 0"
    "i + k < ahi \<and> j + k < bhi"
  then have "alo \<le> i \<and> i < ahi"
    using find_longest_match_bounds [of i j k a b alo ahi blo bhi] by simp
  then show "((a, b, i + k, ahi, j + k, bhi), (a, b, alo, ahi, blo, bhi))
      \<in> measure (\<lambda>(a, b, alo, ahi, blo, bhi). ahi - alo)"
    using \<open>k \<noteq> 0\<close> by auto
qed

declare matching_blocks.simps [simp del]

text \<open>
  \<open>ratio\<close> is \<open>2.0 * matches / length\<close>, or \<open>1.0\<close> for two empty strings. The
  score is kept as the exact fraction: the float is its correctly rounded value, and
  rounding keeps the order, so comparing the fraction with 9/10 or 7/10 gives what the
  floats give.
\<close>

definition ratio :: "string \<Rightarrow> string \<Rightarrow> rat" where
  "ratio a b =
     (let matches = sum_list (map (\<lambda>(i, j, k). k) (matching_blocks a b 0 (length a) 0 (length b)));
          len = length a + length b
      in if len \<noteq> 0 then 2 * of_nat matches / of_nat len else 1)"

definition similarity :: "string \<Rightarrow> string \<Rightarrow> rat" where
  "similarity a b = ratio (lower a) (lower b)"

section \<open>The entity classes and their validators\<close>

text \<open>
  \<open>Normalizer\<close> and its three subclasses. The subclasses override
  \<open>get_default_entity\<close>; \<open>CompanyNormalizer\<close> and \<open>TemplateNormalizer\<close> also override
  \<open>normalize\<close> (a validity check first), and \<open>CompanyNormalizer\<close> overrides
  \<open>clean_entity\<close>.
\<close>

datatype entity_class = Base | Company | Category | Template

fun get_default_entity :: "entity_class \<Rightarrow> string" where
  "get_default_entity Base = ''Unknown''"
| "get_default_entity Company = ''Unknown Company''"
| "get_default_entity Category = ''Other''"
| "get_default_entity Template = ''Other''"

text \<open>The test \<open>not entity or entity.lower() in ('n/a', 'unknown', '')\<close>.\<close>

definition is_empty_or_unknown :: "string \<Rightarrow> bool" where
  "is_empty_or_unknown entity =
     (entity = [] \<or> lower entity = ''n/a'' \<or> lower entity = ''unknown'' \<or> lower entity = [])"

subsection \<open>The regular expressions, one matcher each\<close>

text \<open>
  \<open>$\<close> matches at the end of the string and before a newline that ends the string.
\<close>

definition at_dollar :: "string \<Rightarrow> bool" where
  "at_dollar rest = (rest = [] \<or> rest = [CHR 0x0A])"

definition is_digit :: "char \<Rightarrow> bool" where
  "is_digit c = (let n = of_char c :: nat in 48 \<le> n \<and> n \<le> 57)"

definition is_ascii_letter :: "char \<Rightarrow> bool" where
  "is_ascii_letter c =
     (let n = of_char c :: nat in (65 \<le> n \<and> n \<le> 90) \<or> (97 \<le> n \<and> n \<le> 122))"

text \<open>\<open>[0-9a-f]\<close>, as written and under \<open>re.IGNORECASE\<close>.\<close>

definition is_hex_lower :: "char \<Rightarrow> bool" where
  "is_hex_lower c = (let n = of_char c :: nat in (48 \<le> n \<and> n \<le> 57) \<or> (97 \<le> n \<and> n \<le> 102))"

definition is_hex_ci :: "char \<Rightarrow> bool" where
  "is_hex_ci c = is_hex_lower (lower_char c)"

text \<open>
  \<open>^[0-9a-f]{8}-[0-9a-f]{4}-[0-9a-f]{4}-[0-9a-f]{4}-[0-9a-f]{12}$\<close>, for a given
  reading of the class \<open>[0-9a-f]\<close>.
\<close>

fun hex_groups :: "(char \<Rightarrow> bool) \<Rightarrow> nat list \<Rightarrow> string \<Rightarrow> bool" where
  "hex_groups hex [] s = False"
| "hex_groups hex [n] s =
     (n \<le> length s \<and> list_all hex (take n s) \<and> at_dollar (drop n s))"
| "hex_groups hex (n # m # ns) s =
     (n < length s \<and> list_all hex (take n s) \<and> s ! n = CHR ''-''
      \<and> hex_groups hex (m # ns) (drop (Suc n) s))"

definition uuid_shape :: "(char \<Rightarrow> bool) \<Rightarrow> string \<Rightarrow> bool" where
  "uuid_shape hex s = hex_groups hex [8, 4, 4, 4, 12] s"

text \<open>\<open>^[0-9]+$\<close> and \<open>^[0-9.-]+$\<close>: a non-empty run of the class, then \<open>$\<close>.\<close>

definition run_then_dollar :: "(char \<Rightarrow> bool) \<Rightarrow> string \<Rightarrow> bool" where
  "run_then_dollar cls s = (takeWhile cls s \<noteq> [] \<and> at_dollar (dropWhile cls s))"

definition numeric_id :: "string \<Rightarrow> bool" where
  "numeric_id s = run_then_dollar is_digit s"

definition numeric_dotted :: "string \<Rightarrow> bool" where
  "numeric_dotted s = run_then_dollar (\<lambda>c. is_digit c \<or> c = CHR ''.'' \<or> c = CHR ''-'') s"

text \<open>\<open>^<\<close>.\<close>

definition html_start :: "string \<Rightarrow> bool" where
  "html_start s = (s \<noteq> [] \<and> hd s = CHR ''<'')"

text \<open>
  A literal word searched anywhere under \<open>re.IGNORECASE\<close>: the words are in lower
  case, and a character matches a lower-case letter when its own lower case is that
  letter.
\<close>

fun contains_at :: "string \<Rightarrow> string \<Rightarrow> bool" where
  "contains_at w [] = (w = [])"
| "contains_at w (c # cs) = (take (length w) (c # cs) = w \<or> contains_at w cs)"

definition search_ci :: "string \<Rightarrow> string \<Rightarrow> bool" where
  "search_ci w s = contains_at (lower w) (lower s)"

definition error_words :: "string list" where
  "error_words = [''error'', ''issue'', ''warning'', ''incorrect'', ''wrong'', ''missing'',
     ''invoice'', ''wizard'', ''system'', ''prediction'', ''vendor'', ''document'']"

definition error_vocabulary :: "string \<Rightarrow> bool" where
  "error_vocabulary s = list_ex (\<lambda>w. search_ci w s) error_words"

text \<open>
  \<open>^The\s\<close> and the nineteen patterns like it, each searched with \<open>re.IGNORECASE\<close>:
  the word at the start in any letter case, then one whitespace character.
\<close>

definition sentence_starters :: "string list" where
  "sentence_starters = [''The'', ''There'', ''Is'', ''We'', ''Not'', ''This'', ''All'', ''Due'',
     ''Changed'', ''Data'', ''PO'', ''SQL'', ''SHOULD'', ''WIZARD'', ''GRANT'', ''email'',
     ''invoice'', ''sales'', ''the'', ''this'']"

definition starts_with_word_ci :: "string \<Rightarrow> string \<Rightarrow> bool" where
  "starts_with_word_ci w s =
     (length w < length s \<and> lower (take (length w) s) = lower w \<and> isspace (s ! length w))"

definition sentence_starter :: "string \<Rightarrow> bool" where
  "sentence_starter s = list_ex (\<lambda>w. starts_with_word_ci w s) sentence_starters"

text \<open>The loop over \<open>exclude_patterns\<close> of the company normalizer.\<close>

definition company_excluded :: "string \<Rightarrow> bool" where
  "company_excluded s =
     (uuid_shape is_hex_ci s \<or> numeric_id s \<or> numeric_dotted s \<or> html_start s
      \<or> error_vocabulary s \<or> sentence_starter s)"

definition known_companies :: "string list" where
  "known_companies = [''Beacon Communications, LLC'', ''Ben Hur Construction Co.'',
     ''BluSky Restoration Contractors, LLC'', ''Concrete & Materials Placement'',
     ''Doggett Concrete Construction'', ''GBI'', ''Gulf Stream Construction Co., Inc.'',
     ''H&M Mechanical Constructors, Inc.'', ''Haskell Lemon'', ''NP Mechanical, Inc.'',
     ''S.M. Hentges'', ''TSU One, Inc.'', ''TaftElectric'', ''Moisture Loc'',
     ''Comtel Systems Technology'', ''Great Basin Industrial'', ''Doggett Residential'']"

definition is_invalid_company :: "string \<Rightarrow> bool" where
  "is_invalid_company entity =
     (if is_empty_or_unknown entity then True
      else if company_excluded entity then True
      else if entity \<in> set known_companies then False
      else if 50 < length entity then True
      else if 8 < length (split_ws entity) then True
      else False)"

subsection \<open>The template validator\<close>

text \<open>
  \<open>^[a-zA-Z0-9._%+-]+@[a-zA-Z0-9.-]+\.[a-zA-Z]{2,}$\<close>, matched as written (no flag).
  Neither class holds \<open>@\<close>, so the local part ends at the first \<open>@\<close>; the letters
  after the last dot hold no dot, so the domain is split at its last dot.
\<close>

definition is_local_char :: "char \<Rightarrow> bool" where
  "is_local_char c = (is_ascii_letter c \<or> is_digit c \<or> c \<in> set ''._%+-'')"

definition is_domain_char :: "char \<Rightarrow> bool" where
  "is_domain_char c = (is_ascii_letter c \<or> is_digit c \<or> c \<in> set ''.-'')"

definition domain_shape :: "string \<Rightarrow> bool" where
  "domain_shape d =
     (let tld = rev (takeWhile is_ascii_letter (rev d));
          tld_nl = rev (takeWhile is_ascii_letter (rev (butlast d)));
          ok = (\<lambda>letters front.
                  2 \<le> length letters \<and> front \<noteq> [] \<and> last front = CHR ''.''
                  \<and> butlast front \<noteq> [] \<and> list_all is_domain_char (butlast front))
      in ok tld (take (length d - length tld) d)
         \<or> (d \<noteq> [] \<and> last d = CHR 0x0A
            \<and> ok tld_nl (take (length d - 1 - length tld_nl) d)))"

definition email_shape :: "string \<Rightarrow> bool" where
  "email_shape s =
     (let local = takeWhile is_local_char s; rest = dropWhile is_local_char s
      in local \<noteq> [] \<and> rest \<noteq> [] \<and> hd rest = CHR ''@'' \<and> domain_shape (tl rest))"

definition valid_keywords :: "string list" where
  "valid_keywords = [''vendor'', ''prediction'', ''system'', ''performance'', ''error'',
     ''upload'', ''document'', ''integration'', ''erp'', ''accounting'', ''invoice'',
     ''submit'', ''unexpected'']"

definition is_invalid_template :: "string \<Rightarrow> bool" where
  "is_invalid_template entity =
     (if is_empty_or_unknown entity then True
      else if uuid_shape is_hex_lower entity \<or> email_shape entity then True
      else \<not> list_ex (\<lambda>keyword. contains_at keyword (lower entity)) valid_keywords)"

section \<open>The normalizer\<close>

subsection \<open>Cleaning\<close>

text \<open>
  The base class strips whitespace. The company class then deletes
  \<open>\s+(Inc\.?|LLC\.?|Ltd\.?|Co\.?|Corp\.?|Corporation|Limited)$\<close> under
  \<open>re.IGNORECASE\<close>. The alternatives hold no whitespace, so what matches is the last
  whitespace-separated word together with the whole run of whitespace before it; the
  stripped string does not end in a newline, so \<open>$\<close> is its end.
\<close>

definition legal_suffixes :: "string list" where
  "legal_suffixes = [''inc'', ''inc.'', ''llc'', ''llc.'', ''ltd'', ''ltd.'', ''co'', ''co.'',
     ''corp'', ''corp.'', ''corporation'', ''limited'']"

definition strip_legal_suffix :: "string \<Rightarrow> string" where
  "strip_legal_suffix s =
     (let word = rev (takeWhile (\<lambda>c. \<not> isspace c) (rev s));
          front = take (length s - length word) s
      in if lower word \<in> set legal_suffixes \<and> front \<noteq> []
         then rev (dropWhile isspace (rev front)) else s)"

fun clean_entity :: "entity_class \<Rightarrow> string \<Rightarrow> string" where
  "clean_entity Company entity = strip_legal_suffix (strip entity)"
| "clean_entity k entity = strip entity"

subsection \<open>State\<close>

text \<open>
  The fields of a \<open>Normalizer\<close>. \<open>mappings\<close> and \<open>pending_review\<close> are dictionaries,
  kept as association lists in insertion order. \<open>standardized_entities\<close> is a Python
  set, kept as the list of its elements in the order the set is iterated; Python fixes
  no such order, and every statement below holds for any list.
\<close>

record normalizer =
  kind :: entity_class
  auto_threshold :: rat
  suggest_threshold :: rat
  mappings :: "(string \<times> string) list"
  standardized_entities :: "string list"
  pending_review :: "(string \<times> string \<times> rat) list"

definition DEFAULT_AUTO_THRESHOLD :: rat where
  "DEFAULT_AUTO_THRESHOLD = 9 / 10"

definition DEFAULT_SUGGEST_THRESHOLD :: rat where
  "DEFAULT_SUGGEST_THRESHOLD = 7 / 10"

text \<open>\<open>set.add\<close>.\<close>

definition set_add :: "string \<Rightarrow> string list \<Rightarrow> string list" where
  "set_add x xs = (if x \<in> set xs then xs else xs @ [x])"

text \<open>
  What \<open>load_mappings\<close> finds: no file, a file that cannot be read as JSON (any
  exception), or a JSON object in which each of the keys \<open>mappings\<close> and
  \<open>standardized_entities\<close> may be missing.
\<close>

datatype stored = Missing | Unreadable
  | Stored "(string \<times> string) list option" "string list option"

fun load_mappings :: "normalizer \<Rightarrow> stored \<Rightarrow> normalizer" where
  "load_mappings n (Stored m s) =
     n\<lparr>mappings := (case m of None \<Rightarrow> [] | Some kvs \<Rightarrow> kvs),
       standardized_entities := remdups (case s of None \<Rightarrow> [] | Some es \<Rightarrow> es)\<rparr>"
| "load_mappings n Missing = n\<lparr>mappings := [], standardized_entities := []\<rparr>"
| "load_mappings n Unreadable = n\<lparr>mappings := [], standardized_entities := []\<rparr>"

text \<open>\<open>__init__\<close>: empty fields, then \<open>load_mappings\<close>.\<close>

definition new_normalizer :: "entity_class \<Rightarrow> rat \<Rightarrow> rat \<Rightarrow> stored \<Rightarrow> normalizer" where
  "new_normalizer k auto suggest file =
     load_mappings \<lparr>kind = k, auto_threshold = auto, suggest_threshold = suggest,
                    mappings = [], standardized_entities = [], pending_review = []\<rparr> file"

subsection \<open>Operations\<close>

definition add_standardized_entity :: "normalizer \<Rightarrow> string \<Rightarrow> normalizer" where
  "add_standardized_entity n entity =
     n\<lparr>standardized_entities := set_add entity (standardized_entities n)\<rparr>"

definition add_mapping :: "normalizer \<Rightarrow> string \<Rightarrow> string \<Rightarrow> normalizer" where
  "add_mapping n entity standardized =
     n\<lparr>mappings := AList.update entity standardized (mappings n),
       standardized_entities := set_add standardized (standardized_entities n),
       pending_review :=
         (if map_of (pending_review n) entity \<noteq> None
          then AList.delete entity (pending_review n) else pending_review n)\<rparr>"

text \<open>
  One turn of either loop of \<open>find_best_match\<close>, and the two loops: over the
  standardized entities, then over \<open>set(self.mappings.values())\<close>.
\<close>

definition better :: "string \<Rightarrow> string \<Rightarrow> string \<times> rat \<Rightarrow> string \<times> rat" where
  "better entity candidate best =
     (case best of (best_match, best_score) \<Rightarrow>
        (let score = similarity entity candidate in
         if best_score < score then (candidate, score) else (best_match, best_score)))"

definition find_best_match :: "normalizer \<Rightarrow> string \<Rightarrow> string \<times> rat" where
  "find_best_match n entity =
     fold (better entity) (remdups (map snd (mappings n)))
       (fold (better entity) (standardized_entities n) (entity, 0))"

definition normalize_base :: "normalizer \<Rightarrow> string \<Rightarrow> string \<times> normalizer" where
  "normalize_base n entity =
     (if is_empty_or_unknown entity then (get_default_entity (kind n), n)
      else
        (let cleaned_entity = clean_entity (kind n) entity in
         case map_of (mappings n) cleaned_entity of
           Some standardized \<Rightarrow> (standardized, n)
         | None \<Rightarrow>
             if cleaned_entity \<in> set (standardized_entities n) then (cleaned_entity, n)
             else
               (case find_best_match n cleaned_entity of (best_match, score) \<Rightarrow>
                  if auto_threshold n \<le> score
                  then (best_match, add_mapping n cleaned_entity best_match)
                  else if suggest_threshold n \<le> score
                  then (best_match,
                        n\<lparr>pending_review :=
                            AList.update cleaned_entity (best_match, score) (pending_review n)\<rparr>)
                  else (cleaned_entity, add_standardized_entity n cleaned_entity))))"

text \<open>\<open>normalize\<close>, with the overrides of the company and the template class.\<close>

definition normalize :: "normalizer \<Rightarrow> string \<Rightarrow> string \<times> normalizer" where
  "normalize n entity =
     (case kind n of
        Company \<Rightarrow>
          if is_invalid_company entity then (get_default_entity (kind n), n)
          else normalize_base n entity
      | Template \<Rightarrow>
          if is_invalid_template entity then (get_default_entity (kind n), n)
          else normalize_base n entity
      | _ \<Rightarrow> normalize_base n entity)"

text \<open>\<open>approve_mapping(entity, standardized=None)\<close>.\<close>

definition approve_mapping :: "normalizer \<Rightarrow> string \<Rightarrow> string option \<Rightarrow> normalizer" where
  "approve_mapping n entity standardized =
     (case map_of (pending_review n) entity of
        Some (suggested, score) \<Rightarrow>
          add_mapping n entity (case standardized of None \<Rightarrow> suggested | Some s \<Rightarrow> s)
      | None \<Rightarrow> n)"

text \<open>Sequences of calls to the public operations.\<close>

datatype call = Normalize string | Approve string "string option"
  | AddMapping string string | AddStandardized string

fun perform :: "call \<Rightarrow> normalizer \<Rightarrow> normalizer" where
  "perform (Normalize entity) n = snd (normalize n entity)"
| "perform (Approve entity standardized) n = approve_mapping n entity standardized"
| "perform (AddMapping entity standardized) n = add_mapping n entity standardized"
| "perform (AddStandardized entity) n = add_standardized_entity n entity"

definition perform_all :: "call list \<Rightarrow> normalizer \<Rightarrow> normalizer" where
  "perform_all calls n = fold perform calls n"

subsection \<open>The stores\<close>

text \<open>
  The three stores as the specification speaks of them: MappingTable as a partial map,
  StandardizedSet as a set, PendingReview as a partial map.
\<close>

definition mapping_table :: "normalizer \<Rightarrow> string \<rightharpoonup> string" where
  "mapping_table n = map_of (mappings n)"

definition standardized_set :: "normalizer \<Rightarrow> string set" where
  "standardized_set n = set (standardized_entities n)"

definition pending :: "normalizer \<Rightarrow> string \<rightharpoonup> string \<times> rat" where
  "pending n = map_of (pending_review n)"

subsection \<open>The checks before cleaning\<close>

text \<open>
  The checks that come before cleaning: the validator of the class, or the test for an
  empty or unknown string in the classes that have no validator.
\<close>

fun passes_validation :: "entity_class \<Rightarrow> string \<Rightarrow> bool" where
  "passes_validation Company entity = (\<not> is_invalid_company entity)"
| "passes_validation Template entity = (\<not> is_invalid_template entity)"
| "passes_validation k entity = (\<not> is_empty_or_unknown entity)"

text \<open>
  The sentence starters as the specification words them: the word at the start in the
  letter case in which it is listed, then one whitespace character.
\<close>

definition starts_with_word_cs :: "string \<Rightarrow> string \<Rightarrow> bool" where
  "starts_with_word_cs w s =
     (length w < length s \<and> take (length w) s = w \<and> isspace (s ! length w))"

definition sentence_starter_as_specified :: "string \<Rightarrow> bool" where
  "sentence_starter_as_specified s = list_ex (\<lambda>w. starts_with_word_cs w s) sentence_starters"

section \<open>Saving\<close>

text \<open>
  \<open>save_mappings\<close> opens the mapping file with mode \<open>'w'\<close>, which creates it or cuts
  it to length zero, writes the JSON document with \<open>json.dump\<close> and closes it, all
  inside \<open>try ... except Exception\<close>. What can go wrong is the environment's choice:
  the \<open>open\<close> raises, or something after the \<open>open\<close> raises (a write, the
  serialisation, the close). An empty file and a document cut short are not JSON, so
  \<open>load_mappings\<close> finds them \<open>Unreadable\<close>.
\<close>

datatype save_fault = Open_raises | Write_raises

datatype message = Saved nat | Error_saving

text \<open>The \<open>with open(...) as f: json.dump(data, f, indent=2)\<close> block: the file
  afterwards, and whether an exception came out of it.\<close>

definition write_file :: "save_fault option \<Rightarrow> stored \<Rightarrow> stored \<Rightarrow> stored \<times> bool" where
  "write_file fault file data =
     (case fault of
        None \<Rightarrow> (data, False)
      | Some Open_raises \<Rightarrow> (file, True)
      | Some Write_raises \<Rightarrow> (Unreadable, True))"

text \<open>The contents of the file that a reader can find while the block runs.\<close>

definition file_during_write :: "save_fault option \<Rightarrow> stored \<Rightarrow> stored \<Rightarrow> stored list" where
  "file_during_write fault file data =
     (case fault of
        None \<Rightarrow> [file, Unreadable, data]
      | Some Open_raises \<Rightarrow> [file]
      | Some Write_raises \<Rightarrow> [file, Unreadable])"

definition save_mappings ::
  "normalizer \<Rightarrow> stored \<Rightarrow> save_fault option \<Rightarrow> normalizer \<times> stored \<times> message" where
  "save_mappings n file fault =
     (let data = Stored (Some (mappings n)) (Some (standardized_entities n)) in
      case write_file fault file data of
        (file', raised) \<Rightarrow>
          (n, file', if raised then Error_saving else Saved (length (mappings n))))"

section \<open>Example states\<close>

text \<open>
  A stored file with one mapping, and normalizers built with the default thresholds.
\<close>

definition acme_file :: stored where
  "acme_file = Stored (Some [(''acme co'', ''Acme'')]) (Some [''Acme''])"

definition loaded :: normalizer where
  "loaded = new_normalizer Category DEFAULT_AUTO_THRESHOLD DEFAULT_SUGGEST_THRESHOLD acme_file"

definition zeta_state :: normalizer where
  "zeta_state = perform_all [AddMapping ''zeta ltd'' ''Zeta'']
     (new_normalizer Category DEFAULT_AUTO_THRESHOLD DEFAULT_SUGGEST_THRESHOLD acme_file)"

definition acme_only :: normalizer where
  "acme_only = new_normalizer Category DEFAULT_AUTO_THRESHOLD DEFAULT_SUGGEST_THRESHOLD
     (Stored None (Some [''Acme Corp'']))"

definition two_names :: normalizer where
  "two_names = new_normalizer Category DEFAULT_AUTO_THRESHOLD DEFAULT_SUGGEST_THRESHOLD
     (Stored None (Some [''Acmee'', ''Zeta'']))"

definition overridden :: normalizer where
  "overridden = perform_all [Normalize ''Acme'', Approve ''Acme'' (Some ''Zeta'')]
     (new_normalizer Category DEFAULT_AUTO_THRESHOLD DEFAULT_SUGGEST_THRESHOLD
        (Stored None (Some [''Acmee'', ''Zeta''])))"

definition acme_inc :: normalizer where
  "acme_inc = new_normalizer Company DEFAULT_AUTO_THRESHOLD DEFAULT_SUGGEST_THRESHOLD
     (Stored None (Some [''Acme Inc'']))"

definition fresh_category :: normalizer where
  "fresh_category = new_normalizer Category DEFAULT_AUTO_THRESHOLD DEFAULT_SUGGEST_THRESHOLD Missing"

definition fresh_template :: normalizer where
  "fresh_template = new_normalizer Template DEFAULT_AUTO_THRESHOLD DEFAULT_SUGGEST_THRESHOLD Missing"

text \<open>
  A stored file that has a mapping and no \<open>standardized_entities\<close> key, and the
  normalizer built from it after two calls.
\<close>

definition unlisted :: normalizer where
  "unlisted = perform_all [Normalize ''Zeta'', AddStandardized ''Beta'']
     (new_normalizer Category DEFAULT_AUTO_THRESHOLD DEFAULT_SUGGEST_THRESHOLD
        (Stored (Some [(''acme co'', ''Acme'')]) None))"

section \<open>What the operations do to the stores\<close>

lemma set_set_add: "set (set_add x xs) = insert x (set xs)"
  by (auto simp: set_add_def)

lemma add_mapping_table: "mapping_table (add_mapping n e s) = (mapping_table n)(e \<mapsto> s)"
  by (simp add: mapping_table_def add_mapping_def update_conv')

lemma add_mapping_standardized:
  "standardized_set (add_mapping n e s) = insert s (standardized_set n)"
  by (simp add: standardized_set_def add_mapping_def set_set_add)

lemma add_mapping_pending: "pending (add_mapping n e s) = (pending n)(e := None)"
  by (cases "map_of (pending_review n) e") (auto simp: pending_def add_mapping_def delete_conv')

lemma add_standardized_table: "mapping_table (add_standardized_entity n e) = mapping_table n"
  by (simp add: mapping_table_def add_standardized_entity_def)

lemma add_standardized_standardized:
  "standardized_set (add_standardized_entity n e) = insert e (standardized_set n)"
  by (simp add: standardized_set_def add_standardized_entity_def set_set_add)

lemma add_standardized_pending: "pending (add_standardized_entity n e) = pending n"
  by (simp add: pending_def add_standardized_entity_def)

lemma pending_update_table:
  "mapping_table (n\<lparr>pending_review := p\<rparr>) = mapping_table n"
  by (simp add: mapping_table_def)

lemma pending_update_standardized:
  "standardized_set (n\<lparr>pending_review := p\<rparr>) = standardized_set n"
  by (simp add: standardized_set_def)

lemmas effect_simps = add_mapping_table add_mapping_standardized add_standardized_table
  add_standardized_standardized pending_update_table pending_update_standardized

text \<open>What a call of \<open>normalize\<close> can do to the state: one of four things.\<close>

lemma normalize_base_effect:
  "snd (normalize_base n e) = n
   \<or> (\<exists>c b. snd (normalize_base n e) = add_mapping n c b)
   \<or> (\<exists>c b. snd (normalize_base n e) = n\<lparr>pending_review := AList.update c b (pending_review n)\<rparr>)
   \<or> (\<exists>c. snd (normalize_base n e) = add_standardized_entity n c)"
  unfolding normalize_base_def Let_def
  by (auto split: option.splits prod.splits)

lemma normalize_effect:
  "snd (normalize n e) = n
   \<or> (\<exists>c b. snd (normalize n e) = add_mapping n c b)
   \<or> (\<exists>c b. snd (normalize n e) = n\<lparr>pending_review := AList.update c b (pending_review n)\<rparr>)
   \<or> (\<exists>c. snd (normalize n e) = add_standardized_entity n c)"
  using normalize_base_effect [of n e] unfolding normalize_def
  by (auto split: entity_class.splits)

lemma approve_effect:
  "approve_mapping n e s = n \<or> (\<exists>b. approve_mapping n e s = add_mapping n e b)"
  unfolding approve_mapping_def by (auto split: option.splits)

lemma perform_effect:
  "perform c n = n
   \<or> (\<exists>e b. perform c n = add_mapping n e b)
   \<or> (\<exists>e b. perform c n = n\<lparr>pending_review := AList.update e b (pending_review n)\<rparr>)
   \<or> (\<exists>e. perform c n = add_standardized_entity n e)"
proof (cases c)
  case (Normalize e)
  then show ?thesis using normalize_effect [of n e] by simp
next
  case (Approve e s)
  then show ?thesis using approve_effect [of n e s] by auto
next
  case (AddMapping e s)
  then show ?thesis by auto
next
  case (AddStandardized e)
  then show ?thesis by auto
qed

lemma perform_grows:
  "dom (mapping_table n) \<subseteq> dom (mapping_table (perform c n))
   \<and> standardized_set n \<subseteq> standardized_set (perform c n)"
  using perform_effect [of c n]
  by (elim disjE exE) (auto simp: effect_simps)

lemma perform_keeps_values_standardized:
  assumes "ran (mapping_table n) \<subseteq> standardized_set n"
  shows "ran (mapping_table (perform c n)) \<subseteq> standardized_set (perform c n)"
proof -
  have upd: "\<And>e b. ran ((mapping_table n)(e \<mapsto> b)) \<subseteq> insert b (standardized_set n)"
    using assms by (auto simp: ran_def)
  show ?thesis
    using perform_effect [of c n]
  proof (elim disjE exE)
    fix e b
    assume "perform c n = add_mapping n e b"
    then show ?thesis using upd [of e b] by (simp add: effect_simps)
  qed (use assms in \<open>auto simp: effect_simps\<close>)
qed

section \<open>Invariants of the stores\<close>

text \<open>
  Claim C9. Over any sequence of calls of \<open>normalize\<close>, \<open>approve_mapping\<close>,
  \<open>add_mapping\<close> and \<open>add_standardized_entity\<close>, MappingTable keeps every key it had
  and StandardizedSet keeps every element it had.
\<close>

theorem tables_grow:
  "dom (mapping_table n) \<subseteq> dom (mapping_table (perform_all calls n))
   \<and> standardized_set n \<subseteq> standardized_set (perform_all calls n)"
  unfolding perform_all_def
proof (induction calls arbitrary: n)
  case Nil
  show ?case by simp
next
  case (Cons c calls)
  show ?case
    using perform_grows [of n c] Cons.IH [of "perform c n"]
    by (simp only: fold_simps) (meson order_trans)
qed

theorem tables_grow_witness:
  "dom (mapping_table (new_normalizer Category (9 / 10) (7 / 10)
          (Stored (Some [(''acme co'', ''Acme'')]) (Some [''Acme'']))))
     \<subseteq> dom (mapping_table (perform_all [Normalize ''Zeta'', AddMapping ''zeta ltd'' ''Zeta'']
          (new_normalizer Category (9 / 10) (7 / 10)
             (Stored (Some [(''acme co'', ''Acme'')]) (Some [''Acme''])))))
   \<and> standardized_entities (perform_all [Normalize ''Zeta'', AddMapping ''zeta ltd'' ''Zeta'']
          (new_normalizer Category (9 / 10) (7 / 10)
             (Stored (Some [(''acme co'', ''Acme'')]) (Some [''Acme''])))) = [''Acme'', ''Zeta'']"
proof -
  have "standardized_entities (perform_all [Normalize ''Zeta'', AddMapping ''zeta ltd'' ''Zeta'']
          (new_normalizer Category (9 / 10) (7 / 10)
             (Stored (Some [(''acme co'', ''Acme'')]) (Some [''Acme''])))) = [''Acme'', ''Zeta'']"
    by code_simp
  then show ?thesis
    using tables_grow [of "new_normalizer Category (9 / 10) (7 / 10)
             (Stored (Some [(''acme co'', ''Acme'')]) (Some [''Acme'']))"
          "[Normalize ''Zeta'', AddMapping ''zeta ltd'' ''Zeta'']"]
    by blast
qed

text \<open>
  Claim C6 as it is stated fails. \<open>load_mappings\<close> writes MappingTable from the
  stored file and checks nothing: a normalizer built from a file that maps "acme co" to
  "Acme" and lists no standardized entity holds the value "Acme" outside
  StandardizedSet, and still does after a call of \<open>normalize\<close> and a call of
  \<open>add_standardized_entity\<close>.
\<close>

theorem loaded_value_not_standardized:
  "mapping_table unlisted ''acme co'' = Some ''Acme''
   \<and> standardized_entities unlisted = [''Zeta'', ''Beta'']
   \<and> ''Acme'' \<notin> standardized_set unlisted"
  by code_simp

text \<open>
  Claim C6, as amended. In every state reached by calls of the four public operations
  from a normalizer built with no stored file or with an unreadable one, and from any
  state in which every value of MappingTable is in StandardizedSet, every value of
  MappingTable is in StandardizedSet: the writes made by \<open>add_mapping\<close> keep the
  invariant, and \<open>load_mappings\<close> is the one write that does not enforce it.
\<close>

theorem mapping_values_standardized:
  "ran (mapping_table (perform_all calls (new_normalizer k auto suggest Missing)))
     \<subseteq> standardized_set (perform_all calls (new_normalizer k auto suggest Missing))
   \<and> ran (mapping_table (perform_all calls (new_normalizer k auto suggest Unreadable)))
     \<subseteq> standardized_set (perform_all calls (new_normalizer k auto suggest Unreadable))
   \<and> (ran (mapping_table n) \<subseteq> standardized_set n
      \<longrightarrow> ran (mapping_table (perform_all calls n)) \<subseteq> standardized_set (perform_all calls n))"
proof -
  have keep: "ran (mapping_table n) \<subseteq> standardized_set n
      \<Longrightarrow> ran (mapping_table (fold perform calls n)) \<subseteq> standardized_set (fold perform calls n)"
    for n
  proof (induction calls arbitrary: n)
    case Nil
    then show ?case by simp
  next
    case (Cons c calls)
    show ?case
      using Cons.IH [OF perform_keeps_values_standardized [OF Cons.prems, of c]] by simp
  qed
  have "ran (mapping_table (new_normalizer k auto suggest Missing)) = {}"
    and "ran (mapping_table (new_normalizer k auto suggest Unreadable)) = {}"
    by (simp_all add: new_normalizer_def mapping_table_def)
  then show ?thesis
    using keep unfolding perform_all_def by simp
qed

theorem mapping_values_standardized_witness:
  "ran (mapping_table (new_normalizer Category (9 / 10) (7 / 10)
          (Stored (Some [(''acme co'', ''Acme'')]) (Some [''Acme'']))))
     \<subseteq> standardized_set (new_normalizer Category (9 / 10) (7 / 10)
          (Stored (Some [(''acme co'', ''Acme'')]) (Some [''Acme''])))
   \<and> ran (mapping_table (perform_all [Normalize ''Zeta'', AddMapping ''zeta ltd'' ''Zeta'']
          (new_normalizer Category (9 / 10) (7 / 10)
             (Stored (Some [(''acme co'', ''Acme'')]) (Some [''Acme''])))))
     \<subseteq> standardized_set (perform_all [Normalize ''Zeta'', AddMapping ''zeta ltd'' ''Zeta'']
          (new_normalizer Category (9 / 10) (7 / 10)
             (Stored (Some [(''acme co'', ''Acme'')]) (Some [''Acme'']))))"
proof -
  have h: "ran (mapping_table (new_normalizer Category (9 / 10) (7 / 10)
          (Stored (Some [(''acme co'', ''Acme'')]) (Some [''Acme'']))))
     \<subseteq> standardized_set (new_normalizer Category (9 / 10) (7 / 10)
          (Stored (Some [(''acme co'', ''Acme'')]) (Some [''Acme''])))"
    by (simp add: new_normalizer_def mapping_table_def standardized_set_def)
  show ?thesis
    using h mapping_values_standardized [of "[Normalize ''Zeta'', AddMapping ''zeta ltd'' ''Zeta'']"
        Category "9 / 10" "7 / 10"
        "new_normalizer Category (9 / 10) (7 / 10)
             (Stored (Some [(''acme co'', ''Acme'')]) (Some [''Acme'']))"]
    by blast
qed

section \<open>The similarity scorer ignores letter case\<close>

lemma lower_char_idem: "lower_char (lower_char c) = lower_char c"
proof -
  let ?n = "of_char c :: nat"
  have up: "\<And>m::nat. m < 224 \<Longrightarrow> (of_char (char_of (m + 32)) :: nat) = m + 32"
    by simp
  show ?thesis
  proof (cases "(65 \<le> ?n \<and> ?n \<le> 90) \<or> (192 \<le> ?n \<and> ?n \<le> 222 \<and> ?n \<noteq> 215)")
    case True
    then have "?n < 224" by auto
    from up [OF this] True show ?thesis
      unfolding lower_char_def Let_def by auto
  next
    case False
    then have "lower_char c = c"
      unfolding lower_char_def Let_def by (simp only: if_False)
    then show ?thesis by simp
  qed
qed

lemma lower_idem: "lower (lower s) = lower s"
  by (simp add: lower_def lower_char_idem)

text \<open>
  Claim C10. The scorer lower-cases both of its arguments itself: the score of \<open>a\<close>
  and \<open>b\<close> is the score of their lower-case forms, and two pairs of strings that
  differ only in letter case get the same score.
\<close>

theorem similarity_case_insensitive:
  "similarity a b = similarity (lower a) (lower b)
   \<and> (lower a = lower a' \<and> lower b = lower b' \<longrightarrow> similarity a b = similarity a' b')"
  by (simp add: similarity_def lower_idem)

theorem similarity_case_insensitive_witness:
  "lower ''ACME Co'' = lower ''acme co'' \<and> lower ''Acme'' = lower ''aCME''
   \<and> similarity ''ACME Co'' ''Acme'' = similarity ''acme co'' ''aCME''
   \<and> similarity ''ACME Co'' ''Acme'' = 8 / 11"
proof -
  have l: "lower ''ACME Co'' = lower ''acme co'' \<and> lower ''Acme'' = lower ''aCME''"
    by code_simp
  have v: "similarity ''ACME Co'' ''Acme'' = 8 / 11"
    by code_simp
  show ?thesis
    using similarity_case_insensitive [of "''ACME Co''" "''Acme''" "''acme co''" "''aCME''"] l v
    by blast
qed

section \<open>The resolution rules\<close>

lemma passes_validation_not_empty:
  "passes_validation k entity \<Longrightarrow> \<not> is_empty_or_unknown entity"
  by (cases k) (auto simp: is_invalid_company_def is_invalid_template_def)

lemma normalize_rejected:
  "\<not> passes_validation (kind n) entity \<Longrightarrow> normalize n entity = (get_default_entity (kind n), n)"
  by (cases "kind n") (auto simp: normalize_def normalize_base_def)

lemma normalize_accepted:
  "passes_validation (kind n) entity \<Longrightarrow> normalize n entity = normalize_base n entity"
  by (cases "kind n") (auto simp: normalize_def)

lemma normalize_mapped:
  assumes "passes_validation (kind n) entity"
    and "mapping_table n (clean_entity (kind n) entity) = Some c"
  shows "normalize n entity = (c, n)"
  using assms passes_validation_not_empty [OF assms(1)]
  by (simp add: normalize_accepted normalize_base_def mapping_table_def)

lemma normalize_standardized:
  assumes "passes_validation (kind n) entity"
    and "mapping_table n (clean_entity (kind n) entity) = None"
    and "clean_entity (kind n) entity \<in> standardized_set n"
  shows "normalize n entity = (clean_entity (kind n) entity, n)"
  using assms passes_validation_not_empty [OF assms(1)]
  by (simp add: normalize_accepted normalize_base_def mapping_table_def standardized_set_def)

lemma normalize_matching:
  assumes "passes_validation (kind n) entity"
    and "mapping_table n (clean_entity (kind n) entity) = None"
    and "clean_entity (kind n) entity \<notin> standardized_set n"
    and "find_best_match n (clean_entity (kind n) entity) = (best_match, score)"
  shows "normalize n entity =
     (if auto_threshold n \<le> score
      then (best_match, add_mapping n (clean_entity (kind n) entity) best_match)
      else if suggest_threshold n \<le> score
      then (best_match,
            n\<lparr>pending_review :=
                AList.update (clean_entity (kind n) entity) (best_match, score) (pending_review n)\<rparr>)
      else (clean_entity (kind n) entity,
            add_standardized_entity n (clean_entity (kind n) entity)))"
  using assms passes_validation_not_empty [OF assms(1)]
  by (simp add: normalize_accepted normalize_base_def mapping_table_def standardized_set_def
      Let_def)

subsection \<open>Strings already resolved\<close>

text \<open>
  Claim C5 as it is stated fails. \<open>normalize\<close> looks up the cleaned string, not the
  string it was given: the company normalizer that holds "Acme Inc" in StandardizedSet
  cleans "Acme Inc" to "Acme", finds no good match (score 2/3), returns "Acme" and adds
  it to StandardizedSet.
\<close>

theorem standardized_name_is_remapped:
  "''Acme Inc'' \<in> standardized_set acme_inc
   \<and> mappings acme_inc = []
   \<and> \<not> is_invalid_company ''Acme Inc''
   \<and> fst (normalize acme_inc ''Acme Inc'') = ''Acme''
   \<and> standardized_entities (snd (normalize acme_inc ''Acme Inc'')) = [''Acme Inc'', ''Acme'']"
  by code_simp

text \<open>
  Claim C5, as amended. For a string that passes the validation of its class: if its
  cleaned form is a key of MappingTable, \<open>normalize\<close> returns the value stored
  there; if its cleaned form is not a key but is in StandardizedSet, \<open>normalize\<close>
  returns the cleaned form. In both cases the state is left exactly as it was, so every
  later call does the same.
\<close>

theorem resolved_is_stable:
  assumes "passes_validation (kind n) s"
  shows "(mapping_table n (clean_entity (kind n) s) = Some c \<longrightarrow> normalize n s = (c, n))
       \<and> (mapping_table n (clean_entity (kind n) s) = None
            \<and> clean_entity (kind n) s \<in> standardized_set n
          \<longrightarrow> normalize n s = (clean_entity (kind n) s, n))"
  using normalize_mapped [OF assms] normalize_standardized [OF assms] by blast

theorem resolved_is_stable_witness:
  "mapping_table loaded (clean_entity (kind loaded) '' acme co '') = Some ''Acme''
   \<and> normalize loaded '' acme co '' = (''Acme'', loaded)
   \<and> clean_entity (kind loaded) ''Acme '' \<in> standardized_set loaded
   \<and> normalize loaded ''Acme '' = (''Acme'', loaded)"
proof -
  have v1: "passes_validation (kind loaded) '' acme co ''"
    and m1: "mapping_table loaded (clean_entity (kind loaded) '' acme co '') = Some ''Acme''"
    and v2: "passes_validation (kind loaded) ''Acme ''"
    and m2: "mapping_table loaded (clean_entity (kind loaded) ''Acme '') = None"
    and s2: "clean_entity (kind loaded) ''Acme '' \<in> standardized_set loaded"
    and c2: "clean_entity (kind loaded) ''Acme '' = ''Acme''"
    by code_simp+
  show ?thesis
    using resolved_is_stable [OF v1, of "''Acme''"] resolved_is_stable [OF v2] m1 m2 s2
    by (simp add: c2)
qed

subsection \<open>The thresholds\<close>

text \<open>The best match when every candidate is the same entity.\<close>

lemma fold_better_single:
  assumes "set xs \<subseteq> {E}"
  shows "fold (better c) xs best =
     (if xs \<noteq> [] \<and> snd best < similarity c E then (E, similarity c E) else best)"
  using assms
proof (induction xs arbitrary: best)
  case Nil
  show ?case by simp
next
  case (Cons x xs)
  then have x: "x = E" and xs: "set xs \<subseteq> {E}" by auto
  obtain bm bs where best: "best = (bm, bs)" by (cases best)
  show ?case
    unfolding fold_simps x
    by (simp add: Cons.IH [OF xs] better_def best Let_def)
qed

lemma find_best_match_single:
  assumes "standardized_set n = {E}" and "set (map snd (mappings n)) \<subseteq> {E}"
  shows "find_best_match n c =
     (if 0 < similarity c E then (E, similarity c E) else (c, 0))"
proof -
  let ?b = "if 0 < similarity c E then (E, similarity c E) else (c, 0 :: rat)"
  have eq: "set (standardized_entities n) = {E}"
    using assms(1) unfolding standardized_set_def .
  have std: "set (standardized_entities n) \<subseteq> {E}"
    unfolding eq by (rule subset_refl)
  have ne: "standardized_entities n \<noteq> []"
    using eq by (metis insert_not_empty set_empty2)
  have vals: "set (remdups (map snd (mappings n))) \<subseteq> {E}"
    using assms(2) by simp
  have inner: "fold (better c) (standardized_entities n) (c, 0) = ?b"
    using fold_better_single [OF std, of c "(c, 0)"] ne by simp
  have outer: "fold (better c) (remdups (map snd (mappings n))) ?b = ?b"
    using fold_better_single [OF vals, of c ?b] by (simp split: if_splits)
  show ?thesis
    by (simp only: find_best_match_def inner outer)
qed

text \<open>
  Claim C1 as it is stated fails. With StandardizedSet holding only "Acme Corp", the
  string "Acme Corp" itself scores 1.0 against it, and \<open>normalize\<close> returns it by the
  rule for strings already in StandardizedSet, before any matching: no mapping is
  added.
\<close>

theorem canonical_name_adds_no_mapping:
  "standardized_entities acme_only = [''Acme Corp'']
   \<and> auto_threshold acme_only \<le> similarity (clean_entity Category ''Acme Corp'') ''Acme Corp''
   \<and> fst (normalize acme_only ''Acme Corp'') = ''Acme Corp''
   \<and> mapping_table (snd (normalize acme_only ''Acme Corp'')) (clean_entity Category ''Acme Corp'') = None"
  by code_simp

text \<open>
  Claim C1, as amended. Let StandardizedSet hold exactly one entity \<open>E\<close>, let every
  value stored in the mapping table be \<open>E\<close>, let the thresholds satisfy
  \<open>0 < auto\<close> and \<open>suggest \<le> auto\<close> (as the defaults 0.9 and 0.7 do), and let \<open>s\<close>
  pass the validation of its class with a cleaned form that is neither a key of
  MappingTable nor \<open>E\<close> itself. If the similarity of the cleaned form and \<open>E\<close> is at
  least the auto-threshold, \<open>normalize\<close> returns \<open>E\<close>, maps the cleaned form to \<open>E\<close>
  and has \<open>E\<close> in StandardizedSet. If the best score is below the suggest-threshold,
  \<open>normalize\<close> returns the cleaned form, adds it to StandardizedSet and leaves
  MappingTable and PendingReview as they were.
\<close>

theorem single_candidate_thresholds:
  assumes "standardized_set n = {E}"
    and "set (map snd (mappings n)) \<subseteq> {E}"
    and "passes_validation (kind n) s"
    and "mapping_table n (clean_entity (kind n) s) = None"
    and "clean_entity (kind n) s \<noteq> E"
    and "0 < auto_threshold n"
    and "suggest_threshold n \<le> auto_threshold n"
  shows "(auto_threshold n \<le> similarity (clean_entity (kind n) s) E \<longrightarrow>
            fst (normalize n s) = E
          \<and> mapping_table (snd (normalize n s)) = (mapping_table n)(clean_entity (kind n) s \<mapsto> E)
          \<and> E \<in> standardized_set (snd (normalize n s)))
       \<and> (snd (find_best_match n (clean_entity (kind n) s)) < suggest_threshold n \<longrightarrow>
            fst (normalize n s) = clean_entity (kind n) s
          \<and> standardized_set (snd (normalize n s))
              = insert (clean_entity (kind n) s) (standardized_set n)
          \<and> mapping_table (snd (normalize n s)) = mapping_table n
          \<and> pending (snd (normalize n s)) = pending n)"
proof -
  let ?c = "clean_entity (kind n) s"
  have notin: "?c \<notin> standardized_set n"
    using assms(1,5) by simp
  obtain b sc where fbm: "find_best_match n ?c = (b, sc)"
    by (cases "find_best_match n ?c")
  note norm = normalize_matching [OF assms(3,4) notin fbm]
  have high: "auto_threshold n \<le> similarity ?c E \<Longrightarrow> b = E \<and> sc = similarity ?c E"
    using fbm assms(6) unfolding find_best_match_single [OF assms(1,2)]
    by (auto split: if_splits)
  show ?thesis
  proof (intro conjI impI)
    assume a: "auto_threshold n \<le> similarity ?c E"
    then have n: "normalize n s = (E, add_mapping n ?c E)"
      using norm high by simp
    show "fst (normalize n s) = E" by (simp add: n)
    show "mapping_table (snd (normalize n s)) = (mapping_table n)(?c \<mapsto> E)"
      by (simp add: n add_mapping_table)
    show "E \<in> standardized_set (snd (normalize n s))"
      by (simp add: n add_mapping_standardized)
  next
    assume l: "snd (find_best_match n ?c) < suggest_threshold n"
    then have "sc < suggest_threshold n" "sc < auto_threshold n"
      using fbm assms(7) by auto
    then have n: "normalize n s = (?c, add_standardized_entity n ?c)"
      using norm by simp
    show "fst (normalize n s) = ?c" by (simp add: n)
    show "standardized_set (snd (normalize n s)) = insert ?c (standardized_set n)"
      by (simp add: n add_standardized_standardized)
    show "mapping_table (snd (normalize n s)) = mapping_table n"
      by (simp add: n add_standardized_table)
    show "pending (snd (normalize n s)) = pending n"
      by (simp add: n add_standardized_pending)
  qed
qed

theorem single_candidate_thresholds_witness:
  "auto_threshold acme_only \<le> similarity (clean_entity (kind acme_only) ''Acme Corp.'') ''Acme Corp''
   \<and> fst (normalize acme_only ''Acme Corp.'') = ''Acme Corp''
   \<and> mapping_table (snd (normalize acme_only ''Acme Corp.'')) ''Acme Corp.'' = Some ''Acme Corp''
   \<and> snd (find_best_match acme_only (clean_entity (kind acme_only) ''Zeta'')) < suggest_threshold acme_only
   \<and> fst (normalize acme_only ''Zeta'') = ''Zeta''
   \<and> standardized_set (snd (normalize acme_only ''Zeta'')) = {''Zeta'', ''Acme Corp''}
   \<and> pending (snd (normalize acme_only ''Zeta'')) = pending acme_only"
proof -
  have std: "standardized_set acme_only = {''Acme Corp''}"
    by (simp add: acme_only_def new_normalizer_def standardized_set_def)
  have vals: "set (map snd (mappings acme_only)) \<subseteq> {''Acme Corp''}"
    by (simp add: acme_only_def new_normalizer_def)
  have thr: "0 < auto_threshold acme_only" "suggest_threshold acme_only \<le> auto_threshold acme_only"
    by (simp_all add: acme_only_def new_normalizer_def DEFAULT_AUTO_THRESHOLD_def
        DEFAULT_SUGGEST_THRESHOLD_def)
  have v1: "passes_validation (kind acme_only) ''Acme Corp.''"
    and k1: "mapping_table acme_only (clean_entity (kind acme_only) ''Acme Corp.'') = None"
    and d1: "clean_entity (kind acme_only) ''Acme Corp.'' \<noteq> ''Acme Corp''"
    and c1: "clean_entity (kind acme_only) ''Acme Corp.'' = ''Acme Corp.''"
    and a1: "auto_threshold acme_only
               \<le> similarity (clean_entity (kind acme_only) ''Acme Corp.'') ''Acme Corp''"
    by code_simp+
  have v2: "passes_validation (kind acme_only) ''Zeta''"
    and k2: "mapping_table acme_only (clean_entity (kind acme_only) ''Zeta'') = None"
    and d2: "clean_entity (kind acme_only) ''Zeta'' \<noteq> ''Acme Corp''"
    and c2: "clean_entity (kind acme_only) ''Zeta'' = ''Zeta''"
    and a2: "snd (find_best_match acme_only (clean_entity (kind acme_only) ''Zeta''))
               < suggest_threshold acme_only"
    by code_simp+
  show ?thesis
    using single_candidate_thresholds [OF std vals v1 k1 d1 thr]
      single_candidate_thresholds [OF std vals v2 k2 d2 thr] a1 a2
    by (simp add: c1 c2 std)
qed

subsection \<open>Suggestion and approval\<close>

lemma approve_absent: "pending n v = None \<Longrightarrow> approve_mapping n v standardized = n"
  by (simp add: approve_mapping_def pending_def)

text \<open>
  Claim C2 as it is stated fails. After "Acme" was suggested "Acmee" and was approved
  with the override "Zeta", the best match of "Acme" still scores 8/9,
  between the thresholds; \<open>normalize\<close> returns the mapped "Zeta" and registers
  nothing in PendingReview.
\<close>

theorem mapped_variant_gets_no_suggestion:
  "mappings overridden = [(''Acme'', ''Zeta'')]
   \<and> standardized_entities overridden = [''Acmee'', ''Zeta'']
   \<and> find_best_match overridden (clean_entity Category ''Acme'') = (''Acmee'', 8 / 9)
   \<and> suggest_threshold overridden \<le> 8 / 9 \<and> 8 / 9 < auto_threshold overridden
   \<and> fst (normalize overridden ''Acme'') = ''Zeta''
   \<and> pending (snd (normalize overridden ''Acme'')) (clean_entity Category ''Acme'') = None"
  by code_simp

text \<open>
  Claim C2, as amended. Let \<open>s\<close> pass the validation of its class, with a cleaned form
  that is neither a key of MappingTable nor in StandardizedSet, and let the best match
  of the cleaned form score at least the suggest-threshold and less than the
  auto-threshold. Then \<open>normalize\<close> returns the suggested candidate, stores it with its
  score under the cleaned form in PendingReview and leaves MappingTable and
  StandardizedSet alone; \<open>approve_mapping\<close> on the cleaned form then maps it to the
  suggested candidate and removes the PendingReview entry. \<open>approve_mapping\<close> on a
  variant that is not in PendingReview changes nothing, in any state.
\<close>

theorem suggestion_then_approval:
  assumes "passes_validation (kind n) s"
    and "mapping_table n (clean_entity (kind n) s) = None"
    and "clean_entity (kind n) s \<notin> standardized_set n"
    and "find_best_match n (clean_entity (kind n) s) = (suggested, score)"
    and "suggest_threshold n \<le> score"
    and "score < auto_threshold n"
  shows "fst (normalize n s) = suggested
       \<and> pending (snd (normalize n s)) = (pending n)(clean_entity (kind n) s \<mapsto> (suggested, score))
       \<and> mapping_table (snd (normalize n s)) = mapping_table n
       \<and> standardized_set (snd (normalize n s)) = standardized_set n
       \<and> mapping_table (approve_mapping (snd (normalize n s)) (clean_entity (kind n) s) None)
           = (mapping_table n)(clean_entity (kind n) s \<mapsto> suggested)
       \<and> pending (approve_mapping (snd (normalize n s)) (clean_entity (kind n) s) None)
           (clean_entity (kind n) s) = None
       \<and> (pending m v = None \<longrightarrow> approve_mapping m v standardized = m)"
proof -
  let ?c = "clean_entity (kind n) s"
  let ?n' = "n\<lparr>pending_review := AList.update ?c (suggested, score) (pending_review n)\<rparr>"
  have n: "normalize n s = (suggested, ?n')"
    using normalize_matching [OF assms(1-4)] assms(5,6) by simp
  have p: "pending ?n' = (pending n)(?c \<mapsto> (suggested, score))"
    by (simp add: pending_def update_conv')
  have a: "approve_mapping ?n' ?c None = add_mapping ?n' ?c suggested"
    using p by (simp add: approve_mapping_def pending_def)
  show ?thesis
    using approve_absent [of m v standardized]
    by (simp add: n p a add_mapping_table add_mapping_pending pending_update_table
        pending_update_standardized)
qed

theorem suggestion_then_approval_witness:
  "fst (normalize two_names ''Acme'') = ''Acmee''
   \<and> pending (snd (normalize two_names ''Acme'')) ''Acme'' = Some (''Acmee'', 8 / 9)
   \<and> mapping_table (snd (normalize two_names ''Acme'')) = mapping_table two_names
   \<and> mapping_table (approve_mapping (snd (normalize two_names ''Acme'')) ''Acme'' None) ''Acme''
       = Some ''Acmee''
   \<and> pending (approve_mapping (snd (normalize two_names ''Acme'')) ''Acme'' None) ''Acme'' = None
   \<and> approve_mapping two_names ''Acme'' None = two_names"
proof -
  have v: "passes_validation (kind two_names) ''Acme''"
    and k: "mapping_table two_names (clean_entity (kind two_names) ''Acme'') = None"
    and d: "clean_entity (kind two_names) ''Acme'' \<notin> standardized_set two_names"
    and c: "clean_entity (kind two_names) ''Acme'' = ''Acme''"
    and f: "find_best_match two_names (clean_entity (kind two_names) ''Acme'') = (''Acmee'', 8 / 9)"
    and lo: "suggest_threshold two_names \<le> 8 / 9"
    and hi: "8 / 9 < auto_threshold two_names"
    and p: "pending two_names ''Acme'' = None"
    by code_simp+
  show ?thesis
    using suggestion_then_approval [OF v k d f lo hi, of two_names "''Acme''" None] p
    by (simp add: c)
qed

section \<open>Defaults and validators\<close>

lemma empty_or_unknown_rejected:
  "is_empty_or_unknown s \<Longrightarrow> \<not> passes_validation k s"
  by (cases k) (simp_all add: is_invalid_company_def is_invalid_template_def)

lemma contains_at_hd:
  "contains_at w t \<Longrightarrow> w \<noteq> [] \<Longrightarrow> hd w \<in> set t"
proof (induction t)
  case Nil
  then show ?case by simp
next
  case (Cons c cs)
  show ?case
  proof (cases "take (length w) (c # cs) = w")
    case True
    then have "hd w = c"
      using Cons.prems(2) by (cases w) auto
    then show ?thesis by simp
  next
    case False
    then show ?thesis using Cons by simp
  qed
qed

lemma lower_char_space: "isspace c \<Longrightarrow> lower_char c = c"
  unfolding isspace_def lower_char_def Let_def by auto

lemma lower_whitespace: "list_all isspace s \<Longrightarrow> lower s = s"
  by (induction s) (simp_all add: lower_def lower_char_space)

lemma keywords_start_with_letters:
  "list_all (\<lambda>w. w \<noteq> [] \<and> \<not> isspace (hd w)) valid_keywords"
  by code_simp

lemma whitespace_has_no_keyword:
  assumes "list_all isspace s"
  shows "\<not> list_ex (\<lambda>keyword. contains_at keyword (lower s)) valid_keywords"
proof
  assume "list_ex (\<lambda>keyword. contains_at keyword (lower s)) valid_keywords"
  then obtain w where w: "w \<in> set valid_keywords" "contains_at w (lower s)"
    by (auto simp: list_ex_iff)
  have "w \<noteq> []" "\<not> isspace (hd w)"
    using keywords_start_with_letters w(1) by (auto simp: list_all_iff)
  moreover have "hd w \<in> set s"
    using contains_at_hd [OF w(2) \<open>w \<noteq> []\<close>] lower_whitespace [OF assms] by simp
  ultimately show False
    using assms by (auto simp: list_all_iff)
qed

lemma whitespace_template_rejected:
  "list_all isspace s \<Longrightarrow> is_invalid_template s"
  using whitespace_has_no_keyword [of s] by (simp add: is_invalid_template_def)

text \<open>
  Claim C3 as it is stated fails for whitespace. The test before cleaning does not
  strip: in the Category class a string of two spaces is cleaned to the empty string,
  which matches nothing, so \<open>normalize\<close> returns the empty string (not "Other") and
  adds it to StandardizedSet.
\<close>

theorem whitespace_becomes_entity:
  "list_all isspace ''  ''
   \<and> fst (normalize fresh_category ''  '') = []
   \<and> get_default_entity (kind fresh_category) = ''Other''
   \<and> standardized_entities fresh_category = []
   \<and> standardized_entities (snd (normalize fresh_category ''  '')) = [[]]"
  by code_simp

text \<open>
  Claim C3, as amended. For every string that is empty or equal to "n/a" or "unknown"
  when lower-cased, \<open>normalize\<close> returns the default of the class ("Unknown Company"
  for Company, "Other" for Category and Template) and leaves the state as it was. For
  a string of whitespace only, this holds in the Template class.
\<close>

theorem empty_or_unknown_gives_default:
  "(s = [] \<or> lower s = ''n/a'' \<or> lower s = ''unknown''
      \<longrightarrow> normalize n s = (get_default_entity (kind n), n))
   \<and> (kind n = Template \<and> list_all isspace s
      \<longrightarrow> normalize n s = (get_default_entity (kind n), n))
   \<and> get_default_entity Company = ''Unknown Company''
   \<and> get_default_entity Category = ''Other''
   \<and> get_default_entity Template = ''Other''"
proof (intro conjI impI)
  assume "s = [] \<or> lower s = ''n/a'' \<or> lower s = ''unknown''"
  then have "is_empty_or_unknown s"
    unfolding is_empty_or_unknown_def by blast
  then show "normalize n s = (get_default_entity (kind n), n)"
    using empty_or_unknown_rejected normalize_rejected by blast
next
  assume a: "kind n = Template \<and> list_all isspace s"
  then have "\<not> passes_validation (kind n) s"
    using whitespace_template_rejected [of s] by simp
  then show "normalize n s = (get_default_entity (kind n), n)"
    by (rule normalize_rejected)
qed simp_all

theorem empty_or_unknown_gives_default_witness:
  "lower ''N/A'' = ''n/a''
   \<and> normalize acme_inc ''N/A'' = (''Unknown Company'', acme_inc)
   \<and> normalize loaded ''UnKnown'' = (''Other'', loaded)
   \<and> list_all isspace ''  ''
   \<and> normalize fresh_template ''  '' = (''Other'', fresh_template)"
proof -
  have l: "lower ''N/A'' = ''n/a''" "lower ''UnKnown'' = ''unknown''"
    and w: "list_all isspace ''  ''"
    and k: "kind acme_inc = Company" "kind loaded = Category" "kind fresh_template = Template"
    by code_simp+
  show ?thesis
    using empty_or_unknown_gives_default [of "''N/A''" acme_inc]
      empty_or_unknown_gives_default [of "''UnKnown''" loaded]
      empty_or_unknown_gives_default [of "''  ''" fresh_template] l w k
    by simp
qed

text \<open>
  Claim C4: every entry of the allow-list of known company names is accepted by the
  company validator whatever the other filters say. The code does not do this:
  \<open>is_invalid_company\<close> returns on an excluded pattern before it looks at the
  allow-list, and the listed "Comtel Systems Technology" holds the excluded word
  "system". "BluSky Restoration Contractors, LLC" is accepted.
\<close>

theorem known_company_rejected:
  "''Comtel Systems Technology'' \<in> set known_companies
   \<and> error_vocabulary ''Comtel Systems Technology''
   \<and> is_invalid_company ''Comtel Systems Technology''
   \<and> ''BluSky Restoration Contractors, LLC'' \<in> set known_companies
   \<and> \<not> is_invalid_company ''BluSky Restoration Contractors, LLC''"
  by code_simp

lemma starts_with_word_ci_iff:
  "starts_with_word_ci w s \<longleftrightarrow> (\<exists>pre c rest. s = pre @ c # rest \<and> lower pre = lower w \<and> isspace c)"
proof
  assume a: "starts_with_word_ci w s"
  then have "s = take (length w) s @ s ! length w # drop (Suc (length w)) s"
    by (simp add: starts_with_word_ci_def id_take_nth_drop)
  then show "\<exists>pre c rest. s = pre @ c # rest \<and> lower pre = lower w \<and> isspace c"
    using a unfolding starts_with_word_ci_def by blast
next
  assume "\<exists>pre c rest. s = pre @ c # rest \<and> lower pre = lower w \<and> isspace c"
  then obtain pre c rest where s: "s = pre @ c # rest" and l: "lower pre = lower w"
    and c: "isspace c" by blast
  have len: "length pre = length w"
    using arg_cong [OF l, of length] by (simp add: lower_def)
  have "(pre @ c # rest) ! length w = c"
    using len by (metis nth_append_length)
  then show "starts_with_word_ci w s"
    unfolding starts_with_word_ci_def s using len l c by simp
qed

text \<open>
  Claim C7 as it is stated fails. Every pattern is searched with \<open>re.IGNORECASE\<close>:
  "THE Acme" begins with no listed word in its listed case, no other filter applies to
  it, and it is rejected as starting with "The".
\<close>

theorem upper_case_starter_rejected:
  "sentence_starter ''THE Acme''
   \<and> \<not> sentence_starter_as_specified ''THE Acme''
   \<and> is_invalid_company ''THE Acme''
   \<and> \<not> is_empty_or_unknown ''THE Acme''
   \<and> \<not> uuid_shape is_hex_ci ''THE Acme'' \<and> \<not> numeric_id ''THE Acme''
   \<and> \<not> numeric_dotted ''THE Acme'' \<and> \<not> html_start ''THE Acme''
   \<and> \<not> error_vocabulary ''THE Acme''
   \<and> length ''THE Acme'' \<le> 50 \<and> length (split_ws ''THE Acme'') \<le> 8"
  by code_simp

text \<open>
  Claim C7, as amended. The sentence-starter rejection of the company validator is a
  prefix match that ignores letter case: a string is rejected on this ground exactly
  when it begins with one of the listed words, in any letter case, followed by a
  whitespace character. Every string so matched is invalid, and a match in the listed
  case is one such match.
\<close>

theorem sentence_starter_ignores_case:
  "(sentence_starter s \<longleftrightarrow>
      (\<exists>w \<in> set sentence_starters. \<exists>pre c rest.
          s = pre @ c # rest \<and> lower pre = lower w \<and> isspace c))
   \<and> (sentence_starter s \<longrightarrow> is_invalid_company s)
   \<and> (sentence_starter_as_specified s \<longrightarrow> sentence_starter s)"
proof (intro conjI impI)
  show "sentence_starter s \<longleftrightarrow>
      (\<exists>w \<in> set sentence_starters. \<exists>pre c rest.
          s = pre @ c # rest \<and> lower pre = lower w \<and> isspace c)"
    unfolding sentence_starter_def list_ex_iff starts_with_word_ci_iff ..
next
  assume "sentence_starter s"
  then show "is_invalid_company s"
    by (simp add: is_invalid_company_def company_excluded_def)
next
  assume "sentence_starter_as_specified s"
  then obtain w where "w \<in> set sentence_starters" "starts_with_word_cs w s"
    by (auto simp: sentence_starter_as_specified_def list_ex_iff)
  then have "w \<in> set sentence_starters \<and> starts_with_word_ci w s"
    by (simp add: starts_with_word_cs_def starts_with_word_ci_def)
  then show "sentence_starter s"
    unfolding sentence_starter_def list_ex_iff by blast
qed

theorem sentence_starter_ignores_case_witness:
  "sentence_starter ''tHiS is it'' \<and> is_invalid_company ''tHiS is it''
   \<and> sentence_starter_as_specified ''PO 123'' \<and> sentence_starter ''PO 123''"
proof -
  have a: "sentence_starter ''tHiS is it''" and b: "sentence_starter_as_specified ''PO 123''"
    by code_simp+
  show ?thesis
    using sentence_starter_ignores_case [of "''tHiS is it''"]
      sentence_starter_ignores_case [of "''PO 123''"] a b
    by blast
qed

section \<open>Saving is not atomic\<close>

text \<open>
  Claim C8 as it is stated fails. The file is opened for writing before anything is
  written: when a write fails after that, the file that held one mapping is left
  unreadable, and a normalizer built from it starts empty. During a save that succeeds
  a reader can find the same unreadable file.
\<close>

theorem failed_save_loses_file:
  "snd (save_mappings zeta_state acme_file (Some Write_raises)) = (Unreadable, Error_saving)
   \<and> mappings (new_normalizer Category DEFAULT_AUTO_THRESHOLD DEFAULT_SUGGEST_THRESHOLD acme_file)
        = [(''acme co'', ''Acme'')]
   \<and> mappings (new_normalizer Category DEFAULT_AUTO_THRESHOLD DEFAULT_SUGGEST_THRESHOLD
        (fst (snd (save_mappings zeta_state acme_file (Some Write_raises))))) = []
   \<and> file_during_write None acme_file
        (Stored (Some (mappings zeta_state)) (Some (standardized_entities zeta_state))) ! 1
        = Unreadable"
  by code_simp

text \<open>
  Claim C8, as amended. \<open>save_mappings\<close> always returns, with the normalizer as it
  was. With no failure the file afterwards holds the mappings and the standardized
  entities, and loading it gives them back. When something fails, the failure is
  logged; the file is as it was before only when it was the \<open>open\<close> that failed, and
  unreadable otherwise.
\<close>

theorem save_keeps_memory:
  "fst (save_mappings n file fault) = n
   \<and> (fault = None \<longrightarrow>
        snd (save_mappings n file fault)
          = (Stored (Some (mappings n)) (Some (standardized_entities n)), Saved (length (mappings n)))
        \<and> mappings (load_mappings m (fst (snd (save_mappings n file fault)))) = mappings n
        \<and> set (standardized_entities (load_mappings m (fst (snd (save_mappings n file fault)))))
            = set (standardized_entities n))
   \<and> (fault = Some Open_raises \<longrightarrow> snd (save_mappings n file fault) = (file, Error_saving))
   \<and> (fault = Some Write_raises \<longrightarrow> snd (save_mappings n file fault) = (Unreadable, Error_saving))"
  by (auto simp: save_mappings_def write_file_def split: option.splits save_fault.splits)

theorem save_keeps_memory_witness:
  "snd (save_mappings zeta_state acme_file None)
     = (Stored (Some [(''acme co'', ''Acme''), (''zeta ltd'', ''Zeta'')]) (Some [''Acme'', ''Zeta'']),
        Saved 2)
   \<and> snd (save_mappings zeta_state acme_file (Some Open_raises)) = (acme_file, Error_saving)
   \<and> snd (save_mappings zeta_state acme_file (Some Write_raises)) = (Unreadable, Error_saving)"
proof -
  have m: "mappings zeta_state = [(''acme co'', ''Acme''), (''zeta ltd'', ''Zeta'')]"
    and s: "standardized_entities zeta_state = [''Acme'', ''Zeta'']"
    by code_simp+
  show ?thesis
    using save_keeps_memory [of zeta_state acme_file None]
      save_keeps_memory [of zeta_state acme_file "Some Open_raises"]
      save_keeps_memory [of zeta_state acme_file "Some Write_raises"]
    by (simp add: m s)
qed

end
